theory Spec2Isabelle
  imports Complex_Main "HOL-Library.Char_ord" "HOL-Library.List_Lexorder" "HOL-Library.Option_ord"
    "HOL-Library.Log_Nat"
begin

section \<open>Strings\<close>

text \<open>
  Strings are lists of 8-bit characters; the model covers ASCII text. Case folding (the
  regular expression flag \<open>i\<close>) maps \<open>A\<close>..\<open>Z\<close> to \<open>a\<close>..\<open>z\<close>; trimming (the schema option
  \<open>trim: true\<close>, JavaScript's \<open>String.prototype.trim\<close>) strips the ASCII white space
  characters TAB, LF, VT, FF, CR and SPACE from both ends.
\<close>

definition to_lower :: "char \<Rightarrow> char" where
  "to_lower c =
     (case map_of (zip ''ABCDEFGHIJKLMNOPQRSTUVWXYZ'' ''abcdefghijklmnopqrstuvwxyz'') c of
        None \<Rightarrow> c
      | Some l \<Rightarrow> l)"

definition is_digit :: "char \<Rightarrow> bool" where
  "is_digit c = (c \<in> set ''0123456789'')"

definition is_space :: "char \<Rightarrow> bool" where
  "is_space c = (c \<in> set [CHR 0x09, CHR 0x0A, CHR 0x0B, CHR 0x0C, CHR 0x0D, CHR '' ''])"

definition trim :: "string \<Rightarrow> string" where
  "trim s = rev (dropWhile is_space (rev (dropWhile is_space s)))"

text \<open>Decimal rendering of a number, as a JavaScript template literal does for \<open>length + 1\<close>.\<close>

definition digit_char :: "nat \<Rightarrow> char" where
  "digit_char d = ''0123456789'' ! (d mod 10)"

function show_nat :: "nat \<Rightarrow> string" where
  "show_nat n = (if n < 10 then [digit_char n] else show_nat (n div 10) @ [digit_char n])"
  by pat_completeness auto
termination
  by (relation "measure id") auto

declare show_nat.simps [simp del]

section \<open>Double precision numbers\<close>

text \<open>
  A number of JavaScript and of the database is an IEEE 754 double: a 53-bit significand
  and a binary exponent. A double is held here as the rational it denotes, and
  \<open>to_double\<close> rounds a rational to the nearest double, a tie to the even significand, as
  the arithmetic of doubles does with every exact result. The exponent is not bounded:
  the model covers zero and the magnitudes from 2 to the power -1022 up to 2 to the power
  1024.
\<close>

text \<open>The binary exponent of a positive rational \<open>q\<close>: the largest \<open>e\<close> with \<open>2 powi e \<le> q\<close>.\<close>

definition ilog2 :: "rat \<Rightarrow> int" where
  "ilog2 q =
     (let (a, b) = quotient_of q; k = bitlen a - bitlen b
      in if 2 powi k \<le> q then k else k - 1)"

definition round_half_even :: "rat \<Rightarrow> int" where
  "round_half_even x =
     (let f = \<lfloor>x\<rfloor>; d = x - of_int f
      in if d < 1 / 2 then f else if 1 / 2 < d then f + 1 else if even f then f else f + 1)"

definition to_double :: "rat \<Rightarrow> rat" where
  "to_double q =
     (if q = 0 then 0
      else let ulp = 2 powi (ilog2 \<bar>q\<bar> - 52)
           in sgn q * of_int (round_half_even (\<bar>q\<bar> / ulp)) * ulp)"

section \<open>Regular expressions\<close>

text \<open>
  The fragment of the regular expression syntax that the slug query uses: the anchors
  \<open>^\<close> and \<open>$\<close>, literal characters, the class \<open>[0-9]\<close>, sequencing, \<open>?\<close> and \<open>*\<close>. Groups only
  bracket. Without the flag \<open>m\<close> the anchors stand for the start and the end of the
  subject. A matcher state is the number of characters already consumed and the rest of
  the subject; \<open>rx_run\<close> returns every state a match of the expression can end in. The
  iteration of \<open>*\<close> goes on only from a state that consumed something, so it ends.
\<close>

datatype rx = Bol | Eol | Eps | Lit char | Digit | Seq rx rx | Opt rx | Star rx

type_synonym rx_state = "nat \<times> string"

primrec star_iter :: "(rx_state \<Rightarrow> rx_state list) \<Rightarrow> nat \<Rightarrow> rx_state \<Rightarrow> rx_state list" where
  "star_iter f 0 st = [st]"
| "star_iter f (Suc n) st =
     st # concat (map (star_iter f n) (filter (\<lambda>t. length (snd t) < length (snd st)) (f st)))"

primrec rx_run :: "rx \<Rightarrow> bool \<Rightarrow> rx_state \<Rightarrow> rx_state list" where
  "rx_run Bol ci st = (if fst st = 0 then [st] else [])"
| "rx_run Eol ci st = (if snd st = [] then [st] else [])"
| "rx_run Eps ci st = [st]"
| "rx_run (Lit c) ci st =
     (case snd st of
        [] \<Rightarrow> []
      | x # xs \<Rightarrow>
          if (if ci then to_lower x = to_lower c else x = c) then [(Suc (fst st), xs)] else [])"
| "rx_run Digit ci st =
     (case snd st of
        [] \<Rightarrow> []
      | x # xs \<Rightarrow> if is_digit x then [(Suc (fst st), xs)] else [])"
| "rx_run (Seq r1 r2) ci st = concat (map (rx_run r2 ci) (rx_run r1 ci st))"
| "rx_run (Opt r) ci st = rx_run r ci st @ [st]"
| "rx_run (Star r) ci st = star_iter (rx_run r ci) (length (snd st)) st"

text \<open>\<open>RegExp.prototype.test\<close> and the \<open>$regex\<close> query operator search: a match may start anywhere.\<close>

definition rx_test :: "rx \<Rightarrow> bool \<Rightarrow> string \<Rightarrow> bool" where
  "rx_test r ci s = list_ex (\<lambda>i. rx_run r ci (i, drop i s) \<noteq> []) [0..<Suc (length s)]"

text \<open>
  The source text of the expression interpolates the slug. The slug is read here as a
  sequence of literal characters, which is what the regular expression syntax does with
  letters, digits, underscores and hyphens.
\<close>

definition rx_literal :: "string \<Rightarrow> rx" where
  "rx_literal s = foldr (\<lambda>c r. Seq (Lit c) r) s Eps"

text \<open>\<open>new RegExp(`^(${this.slug})((-[0-9]*$)?)$`, "i")\<close>\<close>

definition slugRegEx :: "string \<Rightarrow> rx" where
  "slugRegEx base =
     Seq Bol (Seq (rx_literal base) (Seq (Opt (Seq (Lit CHR ''-'') (Seq (Star Digit) Eol))) Eol))"

text \<open>
  The pattern in the words of the specification, \<open>^(base)(-[0-9]+)?$\<close> with the flag \<open>i\<close>:
  the base, or the base, a hyphen and at least one digit. It is here to be compared with
  \<open>slugRegEx\<close>; no operation uses it.
\<close>

definition spec_slugRegEx :: "string \<Rightarrow> rx" where
  "spec_slugRegEx base =
     Seq Bol (Seq (rx_literal base) (Seq (Opt (Seq (Lit CHR ''-'') (Seq Digit (Star Digit)))) Eol))"

section \<open>The Store schema\<close>

text \<open>
  Object ids and dates are natural numbers. A coordinate is a number that is stored and
  compared, never computed with, and is held as a rational. A field that JavaScript may
  leave \<open>undefined\<close> or \<open>null\<close> is an option.
\<close>

type_synonym objectId = nat

record Location =
  loc_type :: string
  coordinates :: "rat option list"
  address :: "string option"

record Store =
  oid :: objectId
  name :: "string option"
  slug :: "string option"
  description :: "string option"
  tags :: "string list"
  created :: nat
  location :: Location
  photo :: "string option"
  author :: "objectId option"

text \<open>
  Modelled from the spec: the Review schema is not among the sources. A review refers to
  its store by id (the field \<open>store\<close> that the lookup and the virtual name as
  \<open>foreignField\<close>) and carries a \<open>rating\<close>, a number of a bounded range. The model takes
  the rating as a whole number, as in every example of the specification (1 to 5).
\<close>

record Review =
  rid :: objectId
  store :: objectId
  rating :: int

record database =
  stores :: "Store list"
  reviews :: "Review list"

subsection \<open>Documents\<close>

text \<open>
  A document in memory is the field values, whether it has never been saved, and the
  paths that were set since it was created or loaded (what \<open>isModified\<close> reads).
\<close>

datatype path =
  P_name | P_slug | P_description | P_tags | P_created | P_location | P_photo | P_author

record document =
  doc :: Store
  isNew :: bool
  modifiedPaths :: "path list"

definition isModified :: "path \<Rightarrow> document \<Rightarrow> bool" where
  "isModified p d = (p \<in> set (modifiedPaths d))"

text \<open>The request body handed to \<open>new Store(...)\<close>: every field may be absent.\<close>

record LocationInput =
  in_loc_type :: "string option"
  in_coordinates :: "rat option list option"
  in_address :: "string option"

record StoreInput =
  in_name :: "string option"
  in_slug :: "string option"
  in_description :: "string option"
  in_tags :: "string list option"
  in_created :: "nat option"
  in_location :: "LocationInput option"
  in_photo :: "string option"
  in_author :: "objectId option"

definition given :: "'a option \<Rightarrow> path \<Rightarrow> path list" where
  "given v p = (case v of None \<Rightarrow> [] | Some _ \<Rightarrow> [p])"

text \<open>
  Constructing a document applies the schema: \<open>trim: true\<close> on \<open>name\<close> and \<open>description\<close>,
  the defaults \<open>Date.now\<close> for \<open>created\<close> and \<open>"Point"\<close> for \<open>location.type\<close>, and the empty
  array for an array that is not supplied. Every supplied path counts as modified.
\<close>

definition new_Location :: "LocationInput option \<Rightarrow> Location" where
  "new_Location inp =
     (case inp of
        None \<Rightarrow> \<lparr>loc_type = ''Point'', coordinates = [], address = None\<rparr>
      | Some l \<Rightarrow>
          \<lparr>loc_type = (case in_loc_type l of None \<Rightarrow> ''Point'' | Some t \<Rightarrow> t),
           coordinates = (case in_coordinates l of None \<Rightarrow> [] | Some cs \<Rightarrow> cs),
           address = in_address l\<rparr>)"

definition new_Store :: "StoreInput \<Rightarrow> objectId \<Rightarrow> nat \<Rightarrow> document" where
  "new_Store inp new_id now =
     \<lparr>doc =
        \<lparr>oid = new_id,
         name = map_option trim (in_name inp),
         slug = in_slug inp,
         description = map_option trim (in_description inp),
         tags = (case in_tags inp of None \<Rightarrow> [] | Some ts \<Rightarrow> ts),
         created = (case in_created inp of None \<Rightarrow> now | Some t \<Rightarrow> t),
         location = new_Location (in_location inp),
         photo = in_photo inp,
         author = in_author inp\<rparr>,
      isNew = True,
      modifiedPaths =
        given (in_name inp) P_name @ given (in_slug inp) P_slug
        @ given (in_description inp) P_description @ given (in_tags inp) P_tags
        @ given (in_created inp) P_created @ given (in_location inp) P_location
        @ given (in_photo inp) P_photo @ given (in_author inp) P_author\<rparr>"

text \<open>A stored record read back into memory has no modified path.\<close>

definition hydrate :: "Store \<Rightarrow> document" where
  "hydrate s = \<lparr>doc = s, isNew = False, modifiedPaths = []\<rparr>"

subsection \<open>Validation\<close>

text \<open>
  The validators the schema declares, each with its message. \<open>required\<close> on a string
  demands a non-empty string, on a number or an object id a value that is not null; the
  validator of the array's element type runs on every element of the array.
\<close>

datatype error =
  ValidationError "(string \<times> string) list"
  | TypeError
  | GeoKeysError

definition required_string :: "string option \<Rightarrow> bool" where
  "required_string v = (case v of None \<Rightarrow> False | Some s \<Rightarrow> s \<noteq> [])"

definition validate_coordinates :: "rat option list \<Rightarrow> (string \<times> string) list" where
  "validate_coordinates cs =
     concat (map (\<lambda>(i, c). case c of
                     None \<Rightarrow> [(''location.coordinates.'' @ show_nat i, ''You must supply coordinates!'')]
                   | Some _ \<Rightarrow> [])
                 (zip [0..<length cs] cs))"

definition validate :: "Store \<Rightarrow> (string \<times> string) list" where
  "validate s =
     (if required_string (name s) then [] else [(''name'', ''Please enter a store name!'')])
     @ validate_coordinates (coordinates (location s))
     @ (if required_string (address (location s)) then []
        else [(''location.address'', ''You must supply an address!'')])
     @ (if author s \<noteq> None then [] else [(''author'', ''You must supply an author.'')])"

section \<open>Reading stores\<close>

text \<open>
  The virtual \<open>reviews\<close> joins the reviews whose \<open>store\<close> is the store's id. The hooks on
  \<open>find\<close> and \<open>findOne\<close> populate it on every query, so a query result pairs each stored
  record with its reviews; the stored record itself has no such field.
\<close>

type_synonym StoreView = "Store \<times> Review list"

definition populate_reviews :: "Review list \<Rightarrow> Store \<Rightarrow> StoreView" where
  "populate_reviews rs s = (s, filter (\<lambda>r. store r = oid s) rs)"

definition find_stores :: "(Store \<Rightarrow> bool) \<Rightarrow> database \<Rightarrow> StoreView list" where
  "find_stores cond db = map (populate_reviews (reviews db)) (filter cond (stores db))"

definition findOne :: "(Store \<Rightarrow> bool) \<Rightarrow> database \<Rightarrow> StoreView option" where
  "findOne cond db =
     (case filter cond (stores db) of
        [] \<Rightarrow> None
      | s # _ \<Rightarrow> Some (populate_reviews (reviews db) s))"

text \<open>
  Modelled from the spec: the controllers behind \<open>getStore\<close> and \<open>listStores\<close> are not
  among the sources; the first is a \<open>findOne\<close> by slug, the second a \<open>find\<close> with the
  caller's filter.
\<close>

definition getStore :: "string \<Rightarrow> database \<Rightarrow> StoreView option" where
  "getStore sl db = findOne (\<lambda>s. slug s = Some sl) db"

definition listStores :: "(Store \<Rightarrow> bool) \<Rightarrow> database \<Rightarrow> StoreView list" where
  "listStores flt db = find_stores flt db"

section \<open>Saving a store\<close>

text \<open>The query \<open>{ slug: slugRegEx }\<close>: a store without a slug does not match.\<close>

definition slug_matches :: "string \<Rightarrow> Store \<Rightarrow> bool" where
  "slug_matches base s =
     (case slug s of None \<Rightarrow> False | Some x \<Rightarrow> rx_test (slugRegEx base) True x)"

text \<open>
  The \<open>pre("save")\<close> hook. The function \<open>slugs\<close> is the slug library, a parameter of the
  model. Applying it to an undefined name throws.
\<close>

definition set_slug :: "string \<Rightarrow> document \<Rightarrow> document" where
  "set_slug v d =
     d\<lparr>doc := (doc d)\<lparr>slug := Some v\<rparr>,
       modifiedPaths := (if Some v = slug (doc d) \<and> \<not> isNew d then modifiedPaths d
                         else modifiedPaths d @ [P_slug])\<rparr>"

definition pre_save :: "(string \<Rightarrow> string) \<Rightarrow> database \<Rightarrow> document \<Rightarrow> error + document" where
  "pre_save slugs db d =
     (if \<not> isModified P_name d then Inr d
      else case name (doc d) of
        None \<Rightarrow> Inl TypeError
      | Some n \<Rightarrow>
          let base = slugs n;
              storesWithSlug = find_stores (slug_matches base) db
          in if length storesWithSlug \<noteq> 0
             then Inr (set_slug (base @ ''-'' @ show_nat (length storesWithSlug + 1)) d)
             else Inr (set_slug base d))"

text \<open>
  The index \<open>{ location: "2dsphere" }\<close>. The database writes a record only if it can take
  the keys of the index from the record's \<open>location\<close>, which it reads as a GeoJSON object.
  With the flat array of numbers of the schema that object is a \<open>Point\<close>: the type is
  \<open>Point\<close>, and the coordinates begin with a longitude from -180 to 180 and a latitude
  from -90 to 90. Components after the second are let through. A record that fails is
  refused with the error that the keys cannot be extracted.
\<close>

definition geo_keys :: "Location \<Rightarrow> bool" where
  "geo_keys l =
     (loc_type l = ''Point''
      \<and> (case coordinates l of
           Some lng # Some lat # _ \<Rightarrow> - 180 \<le> lng \<and> lng \<le> 180 \<and> - 90 \<le> lat \<and> lat \<le> 90
         | _ \<Rightarrow> False))"

text \<open>
  Writing a document: a new one is inserted; for a stored one the modified paths are set
  on the record with its id. The index is consulted for every record that is written.
\<close>

fun set_path :: "Store \<Rightarrow> path \<Rightarrow> Store \<Rightarrow> Store" where
  "set_path src P_name s = s\<lparr>name := name src\<rparr>"
| "set_path src P_slug s = s\<lparr>slug := slug src\<rparr>"
| "set_path src P_description s = s\<lparr>description := description src\<rparr>"
| "set_path src P_tags s = s\<lparr>tags := tags src\<rparr>"
| "set_path src P_created s = s\<lparr>created := created src\<rparr>"
| "set_path src P_location s = s\<lparr>location := location src\<rparr>"
| "set_path src P_photo s = s\<lparr>photo := photo src\<rparr>"
| "set_path src P_author s = s\<lparr>author := author src\<rparr>"

definition update_doc :: "document \<Rightarrow> Store \<Rightarrow> Store" where
  "update_doc d s = fold (set_path (doc d)) (modifiedPaths d) s"

definition write_doc :: "document \<Rightarrow> Store list \<Rightarrow> error + Store list" where
  "write_doc d ss =
     (if isNew d
      then (if geo_keys (location (doc d)) then Inr (ss @ [doc d]) else Inl GeoKeysError)
      else (if list_all (\<lambda>s. geo_keys (location (update_doc d s)))
                 (filter (\<lambda>s. oid s = oid (doc d)) ss)
            then Inr (map (\<lambda>s. if oid s = oid (doc d) then update_doc d s else s) ss)
            else Inl GeoKeysError))"

text \<open>
  \<open>save\<close>: validation is the first \<open>pre("save")\<close> step, then the slug hook, then the write.
  The result is the outcome and the database afterwards; a save that fails leaves the
  database as it was.
\<close>

definition save :: "(string \<Rightarrow> string) \<Rightarrow> document \<Rightarrow> database \<Rightarrow> (error + document) \<times> database" where
  "save slugs d db =
     (case validate (doc d) of
        e # es \<Rightarrow> (Inl (ValidationError (e # es)), db)
      | [] \<Rightarrow>
          (case pre_save slugs db d of
             Inl err \<Rightarrow> (Inl err, db)
           | Inr d' \<Rightarrow>
               (case write_doc d' (stores db) of
                  Inl err \<Rightarrow> (Inl err, db)
                | Inr ss \<Rightarrow>
                    (Inr (d'\<lparr>isNew := False, modifiedPaths := []\<rparr>), db\<lparr>stores := ss\<rparr>))))"

text \<open>
  Modelled from the spec: the controller behind \<open>createStore\<close> is not among the sources; a
  create constructs the document from the input and saves it, \<open>new Store(input).save()\<close>.
\<close>

definition createStore ::
  "(string \<Rightarrow> string) \<Rightarrow> StoreInput \<Rightarrow> objectId \<Rightarrow> nat \<Rightarrow> database \<Rightarrow> (error + document) \<times> database" where
  "createStore slugs inp new_id now db = save slugs (new_Store inp new_id now) db"

section \<open>Aggregations\<close>

text \<open>
  A \<open>$sort\<close> stage, as an insertion sort along an order on the documents. The order
  among documents that the sort keys do not separate is the order of arrival here; the
  database promises none.
\<close>

fun insort_by :: "('a \<Rightarrow> 'a \<Rightarrow> bool) \<Rightarrow> 'a \<Rightarrow> 'a list \<Rightarrow> 'a list" where
  "insort_by le x [] = [x]"
| "insort_by le x (y # ys) = (if le x y then x # y # ys else y # insort_by le x ys)"

definition sort_by :: "('a \<Rightarrow> 'a \<Rightarrow> bool) \<Rightarrow> 'a list \<Rightarrow> 'a list" where
  "sort_by le xs = foldr (insort_by le) xs []"

subsection \<open>\<open>getTagsList\<close>\<close>






subsection \<open>\<open>getTopStores\<close>\<close>

record StoreSummary =
  sum_id :: objectId
  sum_photo :: "string option"
  sum_name :: "string option"
  sum_reviews :: "Review list"
  sum_slug :: "string option"
  averageRating :: "rat option"

text \<open>\<open>$lookup\<close> from \<open>reviews\<close> with \<open>localField: "_id"\<close> and \<open>foreignField: "store"\<close>.\<close>

definition lookup_reviews :: "database \<Rightarrow> (Store \<times> Review list) list" where
  "lookup_reviews db = map (\<lambda>s. (s, filter (\<lambda>r. store r = oid s) (reviews db))) (stores db)"

text \<open>\<open>{ $match: { "reviews.1": { $exists: true } } }\<close>: the array has an element at index 1.\<close>

definition has_second_review :: "Store \<times> Review list \<Rightarrow> bool" where
  "has_second_review sr = (1 < length (snd sr))"

text \<open>
  \<open>$avg\<close>: the sum of the numbers divided by their count, in the arithmetic of doubles, and
  null for an empty array. The numbers are whole, so the sum and the count are doubles
  themselves as long as they are below 2 to the power 53, and the division rounds once.
\<close>

definition avg :: "int list \<Rightarrow> rat option" where
  "avg xs =
     (if xs = [] then None
      else Some (to_double (of_int (sum_list xs) / of_nat (length xs))))"

definition project_summary :: "Store \<times> Review list \<Rightarrow> StoreSummary" where
  "project_summary sr =
     \<lparr>sum_id = oid (fst sr),
      sum_photo = photo (fst sr),
      sum_name = name (fst sr),
      sum_reviews = snd sr,
      sum_slug = slug (fst sr),
      averageRating = avg (map rating (snd sr))\<rparr>"

text \<open>\<open>{ $sort: { averageRating: -1 } }\<close>: null sorts below every number.\<close>

definition rating_order :: "StoreSummary \<Rightarrow> StoreSummary \<Rightarrow> bool" where
  "rating_order a b = (averageRating b \<le> averageRating a)"

definition getTopStores :: "database \<Rightarrow> StoreSummary list" where
  "getTopStores db =
     take 10 (sort_by rating_order (map project_summary (filter has_second_review (lookup_reviews db))))"

text \<open>
  The function declares no parameter, and JavaScript discards the arguments of a call
  that the function does not name: a caller that passes a limit gets the same report.
\<close>

definition getTopStores_call :: "nat list \<Rightarrow> database \<Rightarrow> StoreSummary list" where
  "getTopStores_call args db = getTopStores db"

section \<open>Auxiliary notions and example data\<close>

text \<open>What may follow the slug in a subject that \<open>slugRegEx\<close> accepts: nothing, or a hyphen and digits.\<close>

definition slug_tail :: "string \<Rightarrow> bool" where
  "slug_tail r = (case r of [] \<Rightarrow> True | c # ds \<Rightarrow> c = CHR ''-'' \<and> list_all is_digit ds)"

text \<open>The slug that the hook assigns when \<open>n\<close> stored slugs match the expression for \<open>base\<close>.\<close>

definition assigned_slug :: "string \<Rightarrow> nat \<Rightarrow> string" where
  "assigned_slug base n = (if n = 0 then base else base @ ''-'' @ show_nat (n + 1))"


text \<open>The summaries that reach the \<open>$sort\<close> stage of \<open>getTopStores\<close>.\<close>

definition qualifying :: "database \<Rightarrow> StoreSummary list" where
  "qualifying db = map project_summary (filter has_second_review (lookup_reviews db))"

text \<open>
  An instance of the slug library for the examples: letters in lower case and a hyphen
  for each space.
\<close>

definition slugs_example :: "string \<Rightarrow> string" where
  "slugs_example n = map (\<lambda>c. if c = CHR '' '' then CHR ''-'' else to_lower c) n"

definition example_input :: "string \<Rightarrow> rat option list \<Rightarrow> StoreInput" where
  "example_input n cs =
     \<lparr>in_name = Some n, in_slug = None, in_description = None, in_tags = None,
      in_created = None,
      in_location = Some \<lparr>in_loc_type = None, in_coordinates = Some cs,
                          in_address = Some ''1 Main Street''\<rparr>,
      in_photo = None, in_author = Some 7\<rparr>"

definition example_store :: "objectId \<Rightarrow> string \<Rightarrow> string list \<Rightarrow> Store" where
  "example_store i sl ts =
     \<lparr>oid = i, name = Some ''Coffee Shop'', slug = Some sl, description = None, tags = ts,
      created = 0,
      location = \<lparr>loc_type = ''Point'', coordinates = [Some 1, Some 2],
                  address = Some ''1 Main Street''\<rparr>,
      photo = None, author = Some 7\<rparr>"

definition empty_db :: database where
  "empty_db = \<lparr>stores = [], reviews = []\<rparr>"

definition coffee_db :: database where
  "coffee_db = \<lparr>stores = [example_store 1 ''coffee-shop'' []], reviews = []\<rparr>"

definition hyphen_db :: database where
  "hyphen_db = \<lparr>stores = [example_store 1 ''coffee-shop-'' []], reviews = []\<rparr>"

definition pizza_db :: database where
  "pizza_db = \<lparr>stores = [example_store 1 ''pizza-place'' []], reviews = []\<rparr>"

definition tags_db :: database where
  "tags_db =
     \<lparr>stores = [example_store 1 ''s1'' [''a'', ''b''], example_store 2 ''s2'' [''a''],
                example_store 3 ''s3'' [''b'', ''b'']],
      reviews = []\<rparr>"

definition thirds_db :: database where
  "thirds_db =
     \<lparr>stores = [example_store 1 ''s1'' []],
      reviews = [\<lparr>rid = 1, store = 1, rating = 4\<rparr>, \<lparr>rid = 2, store = 1, rating = 5\<rparr>,
                 \<lparr>rid = 3, store = 1, rating = 5\<rparr>]\<rparr>"

definition ratings_db :: database where
  "ratings_db =
     \<lparr>stores = [example_store 1 ''s1'' [], example_store 2 ''s2'' [], example_store 3 ''s3'' []],
      reviews = [\<lparr>rid = 1, store = 1, rating = 3\<rparr>, \<lparr>rid = 2, store = 1, rating = 3\<rparr>,
                 \<lparr>rid = 3, store = 2, rating = 5\<rparr>,
                 \<lparr>rid = 4, store = 3, rating = 4\<rparr>, \<lparr>rid = 5, store = 3, rating = 5\<rparr>]\<rparr>"

section \<open>Rounding to a double\<close>

lemma ilog2_lower:
  assumes "0 < q"
  shows "2 powi (ilog2 q) \<le> q"
proof -
  obtain a b where ab: "quotient_of q = (a, b)" by (cases "quotient_of q")
  have b: "0 < b" using ab by (rule quotient_of_denom_pos)
  have q: "q = of_int a / of_int b" using ab by (rule quotient_of_div)
  have a: "0 < a" using assms b q by (simp add: zero_less_divide_iff)
  let ?k = "bitlen a - bitlen b"
  show ?thesis
  proof (cases "(2::rat) powi ?k \<le> q")
    case True
    then show ?thesis using ab by (simp add: ilog2_def)
  next
    case False
    have la: "1 \<le> bitlen a" using a by (simp add: bitlen_alt_def)
    have "(2::int) ^ nat (bitlen a - 1) \<le> a" using bitlen_bounds[OF a] by simp
    then have "(of_int ((2::int) ^ nat (bitlen a - 1)) :: rat) \<le> of_int a"
      by (simp only: of_int_le_iff)
    then have lo: "(2::rat) ^ nat (bitlen a - 1) \<le> of_int a" by simp
    have "b < 2 ^ nat (bitlen b)" using bitlen_bounds[OF b] by simp
    then have "(of_int b :: rat) < of_int ((2::int) ^ nat (bitlen b))"
      by (simp only: of_int_less_iff)
    then have hi: "(of_int b :: rat) < 2 ^ nat (bitlen b)" by simp
    have p1: "(2::rat) powi (bitlen a - 1) = 2 ^ nat (bitlen a - 1)"
      using la by (simp add: power_int_def)
    have p2: "(2::rat) powi (bitlen b) = 2 ^ nat (bitlen b)"
      using bitlen_nonneg[of b] by (simp add: power_int_def)
    have "(2::rat) powi (?k - 1) = 2 powi (bitlen a - 1) / 2 powi (bitlen b)"
      using power_int_diff[of "2::rat" "bitlen a - 1" "bitlen b"] by (simp add: algebra_simps)
    also have "\<dots> = 2 ^ nat (bitlen a - 1) / 2 ^ nat (bitlen b)" by (simp only: p1 p2)
    also have "\<dots> \<le> of_int a / 2 ^ nat (bitlen b)"
      using lo by (simp add: divide_right_mono)
    also have "\<dots> \<le> of_int a / of_int b"
      using hi a b by (simp add: frac_le)
    finally have "(2::rat) powi (?k - 1) \<le> q" using q by simp
    then show ?thesis using ab False by (simp add: ilog2_def)
  qed
qed



lemma ilog2_upper:
  assumes "0 < q"
  shows "q < 2 powi (ilog2 q + 1)"
proof -
  obtain a b where ab: "quotient_of q = (a, b)" by (cases "quotient_of q")
  have b: "0 < b" using ab by (rule quotient_of_denom_pos)
  have q: "q = of_int a / of_int b" using ab by (rule quotient_of_div)
  have a: "0 < a" using assms b q by (simp add: zero_less_divide_iff)
  let ?k = "bitlen a - bitlen b"
  show ?thesis
  proof (cases "(2::rat) powi ?k \<le> q")
    case False
    then show ?thesis using ab by (simp add: ilog2_def)
  next
    case True
    have lb: "1 \<le> bitlen b" using b by (simp add: bitlen_alt_def)
    have "a < 2 ^ nat (bitlen a)" using bitlen_bounds[OF a] by simp
    then have "(of_int a :: rat) < of_int ((2::int) ^ nat (bitlen a))"
      by (simp only: of_int_less_iff)
    then have hi: "(of_int a :: rat) < 2 ^ nat (bitlen a)" by simp
    have "(2::int) ^ nat (bitlen b - 1) \<le> b" using bitlen_bounds[OF b] by simp
    then have "(of_int ((2::int) ^ nat (bitlen b - 1)) :: rat) \<le> of_int b"
      by (simp only: of_int_le_iff)
    then have lo: "(2::rat) ^ nat (bitlen b - 1) \<le> of_int b" by simp
    have p1: "(2::rat) powi (bitlen a) = 2 ^ nat (bitlen a)"
      using bitlen_nonneg[of a] by (simp add: power_int_def)
    have p2: "(2::rat) powi (bitlen b - 1) = 2 ^ nat (bitlen b - 1)"
      using lb by (simp add: power_int_def)
    have "q = of_int a / of_int b" by (rule q)
    also have "\<dots> < 2 ^ nat (bitlen a) / of_int b"
      using hi b by (simp add: divide_strict_right_mono)
    also have "\<dots> \<le> 2 ^ nat (bitlen a) / 2 ^ nat (bitlen b - 1)"
      using lo by (simp add: frac_le)
    also have "\<dots> = 2 powi (bitlen a) / 2 powi (bitlen b - 1)" by (simp only: p1 p2)
    also have "\<dots> = (2::rat) powi (?k + 1)"
      using power_int_diff[of "2::rat" "bitlen a" "bitlen b - 1"] by (simp add: algebra_simps)
    finally show ?thesis using ab True by (simp add: ilog2_def)
  qed
qed

lemma round_half_even_floor:
  "\<lfloor>x\<rfloor> \<le> round_half_even x \<and> round_half_even x \<le> \<lfloor>x\<rfloor> + 1"
  by (simp add: round_half_even_def Let_def)

lemma to_double_significand:
  assumes "q \<noteq> 0"
  shows "\<exists>m. to_double q = sgn q * of_int m * 2 powi (ilog2 \<bar>q\<bar> - 52)
     \<and> 2 ^ 52 \<le> m \<and> m \<le> 2 ^ 53"
proof -
  let ?e = "ilog2 \<bar>q\<bar>"
  let ?u = "(2::rat) powi (?e - 52)"
  let ?x = "\<bar>q\<bar> / ?u"
  have u: "0 < ?u" by (simp add: zero_less_power_int)
  have pos: "0 < \<bar>q\<bar>" using assms by simp
  have lo: "2 powi ?e \<le> \<bar>q\<bar>" using pos by (rule ilog2_lower)
  have hi: "\<bar>q\<bar> < 2 powi (?e + 1)" using pos by (rule ilog2_upper)
  have e1: "(2::rat) powi ?e = 2 ^ 52 * ?u"
    using power_int_diff[of "2::rat" ?e 52] by simp
  have e2: "(2::rat) powi (?e + 1) = 2 ^ 53 * ?u"
    using power_int_add[of "2::rat" "?e - 52" 53] by (simp add: algebra_simps)
  have x1: "2 ^ 52 \<le> ?x" using lo u unfolding e1 by (simp add: pos_le_divide_eq)
  have x2: "?x < 2 ^ 53" using hi u unfolding e2 by (simp add: pos_divide_less_eq)
  have "(2::int) ^ 52 \<le> \<lfloor>?x\<rfloor>"
    using x1 by (simp add: le_floor_iff)
  moreover have "\<lfloor>?x\<rfloor> < 2 ^ 53"
    using x2 by (simp add: floor_less_iff)
  ultimately have "2 ^ 52 \<le> round_half_even ?x \<and> round_half_even ?x \<le> 2 ^ 53"
    using round_half_even_floor[of ?x] by linarith
  then show ?thesis using assms by (auto simp: to_double_def Let_def)
qed

lemma to_double_examples:
  "to_double 3 = 3"
  "to_double (9 / 2) = 9 / 2"
  "to_double (14 / 3) = 5254199565265579 / 2 ^ 50"
  by code_simp+

section \<open>The language of the slug expression\<close>

lemma to_lower_hyphen: "to_lower c = CHR ''-'' \<longleftrightarrow> c = CHR ''-''"
  by (auto simp: to_lower_def split: if_splits)

lemma concat_map_nonempty: "concat (map f xs) \<noteq> [] \<longleftrightarrow> (\<exists>t\<in>set xs. f t \<noteq> [])"
  by (induction xs) auto

lemma rx_run_literal:
  "rx_run (rx_literal base) True (n, s) =
     (if length base \<le> length s \<and> map to_lower (take (length base) s) = map to_lower base
      then [(n + length base, drop (length base) s)] else [])"
proof (induction base arbitrary: n s)
  case Nil
  then show ?case by (simp add: rx_literal_def)
next
  case (Cons c cs)
  have IH: "\<And>n s. rx_run (foldr (\<lambda>c. Seq (Lit c)) cs Eps) True (n, s) =
     (if length cs \<le> length s \<and> map to_lower (take (length cs) s) = map to_lower cs
      then [(n + length cs, drop (length cs) s)] else [])"
    using Cons.IH by (simp add: rx_literal_def)
  show ?case
    by (cases s) (auto simp: rx_literal_def IH)
qed

lemma star_digit_end:
  "length s \<le> k \<Longrightarrow>
   (\<exists>t\<in>set (star_iter (rx_run Digit ci) k (n, s)). snd t = []) \<longleftrightarrow> list_all is_digit s"
proof (induction k arbitrary: n s)
  case 0
  then show ?case by simp
next
  case (Suc k)
  show ?case
  proof (cases s)
    case Nil
    then show ?thesis by simp
  next
    case (Cons x xs)
    then have "length xs \<le> k" using Suc.prems by simp
    from Suc.IH[OF this] show ?thesis using Cons by auto
  qed
qed

lemma star_digit_eol:
  "rx_run (Seq (Star Digit) Eol) ci (n, s) \<noteq> [] \<longleftrightarrow> list_all is_digit s"
  using star_digit_end[of s "length s" ci n]
  by (auto simp: concat_map_nonempty split: if_splits)

lemma star_digit_eol_rest:
  "t \<in> set (rx_run (Seq (Star Digit) Eol) ci st) \<Longrightarrow> snd t = []"
  by (auto split: if_splits)

lemma opt_suffix_eol:
  "rx_run (Seq (Opt (Seq (Lit CHR ''-'') (Seq (Star Digit) Eol))) Eol) True (n, r) \<noteq> []
     \<longleftrightarrow> slug_tail r"
proof (cases r)
  case Nil
  then show ?thesis by (simp add: slug_tail_def)
next
  case (Cons c ds)
  have "rx_run (Seq (Opt (Seq (Lit CHR ''-'') (Seq (Star Digit) Eol))) Eol) True (n, r) \<noteq> []
      \<longleftrightarrow> (\<exists>t\<in>set (rx_run (Seq (Lit CHR ''-'') (Seq (Star Digit) Eol)) True (n, r)). snd t = [])"
    using Cons by (simp add: concat_map_nonempty del: rx_run.simps(6)) (auto split: if_splits)
  also have "\<dots> \<longleftrightarrow> c = CHR ''-'' \<and> rx_run (Seq (Star Digit) Eol) True (Suc n, ds) \<noteq> []"
  proof -
    have low: "to_lower CHR ''-'' = CHR ''-''" by (simp add: to_lower_def)
    have run: "rx_run (Seq (Lit CHR ''-'') (Seq (Star Digit) Eol)) True (n, r) =
        (if c = CHR ''-'' then rx_run (Seq (Star Digit) Eol) True (Suc n, ds) else [])"
      using Cons by (simp add: low to_lower_hyphen del: rx_run.simps(8))
    show ?thesis
      unfolding run using star_digit_eol_rest[of _ True "(Suc n, ds)"]
      by (cases "rx_run (Seq (Star Digit) Eol) True (Suc n, ds)") (auto simp del: rx_run.simps)
  qed
  finally show ?thesis using Cons by (simp add: slug_tail_def star_digit_eol del: rx_run.simps)
qed

lemma slugRegEx_run:
  "rx_run (slugRegEx base) True (i, r) \<noteq> [] \<longleftrightarrow>
     i = 0 \<and> length base \<le> length r \<and> map to_lower (take (length base) r) = map to_lower base
     \<and> slug_tail (drop (length base) r)"
proof -
  let ?T = "Seq (Opt (Seq (Lit CHR ''-'') (Seq (Star Digit) Eol))) Eol"
  have "rx_run (slugRegEx base) True (i, r) =
      (if i = 0 then concat (map (rx_run ?T True) (rx_run (rx_literal base) True (i, r))) else [])"
    by (simp add: slugRegEx_def del: rx_run.simps(7,8))
  then show ?thesis
    using opt_suffix_eol[of "length base" "drop (length base) r"]
    by (simp add: rx_run_literal del: rx_run.simps)
qed

lemma slugRegEx_test:
  "rx_test (slugRegEx base) True x \<longleftrightarrow>
     length base \<le> length x \<and> map to_lower (take (length base) x) = map to_lower base
     \<and> slug_tail (drop (length base) x)"
proof -
  have "rx_test (slugRegEx base) True x \<longleftrightarrow>
      (\<exists>i\<in>set [0..<Suc (length x)]. rx_run (slugRegEx base) True (i, drop i x) \<noteq> [])"
    by (simp add: rx_test_def list_ex_iff)
  also have "\<dots> \<longleftrightarrow> rx_run (slugRegEx base) True (0, x) \<noteq> []"
    using slugRegEx_run[of base] by auto
  finally show ?thesis by (simp add: slugRegEx_run)
qed

section \<open>Sorting stages\<close>

lemma set_insort_by: "set (insort_by le x xs) = insert x (set xs)"
  by (induction xs) auto

lemma length_insort_by: "length (insort_by le x xs) = Suc (length xs)"
  by (induction xs) auto


lemma sorted_insort_by:
  assumes tot: "\<And>a b. le a b \<or> le b a" and tr: "\<And>a b c. le a b \<Longrightarrow> le b c \<Longrightarrow> le a c"
  shows "sorted_wrt le xs \<Longrightarrow> sorted_wrt le (insort_by le x xs)"
proof (induction xs)
  case Nil
  then show ?case by simp
next
  case (Cons y ys)
  show ?case
  proof (cases "le x y")
    case True
    then have "\<forall>z\<in>set ys. le x z" using Cons.prems tr by auto
    then show ?thesis using True Cons.prems by simp
  next
    case False
    then have "le y x" using tot by blast
    then show ?thesis using False Cons by (auto simp: set_insort_by)
  qed
qed

lemma set_sort_by: "set (sort_by le xs) = set xs"
  by (induction xs) (simp_all add: sort_by_def set_insort_by)

lemma length_sort_by: "length (sort_by le xs) = length xs"
  by (induction xs) (simp_all add: sort_by_def length_insort_by)


lemma sorted_sort_by:
  assumes "\<And>a b. le a b \<or> le b a" and "\<And>a b c. le a b \<Longrightarrow> le b c \<Longrightarrow> le a c"
  shows "sorted_wrt le (sort_by le xs)"
proof (induction xs)
  case Nil
  then show ?case by (simp add: sort_by_def)
next
  case (Cons x xs)
  have "sort_by le (x # xs) = insort_by le x (sort_by le xs)" by (simp add: sort_by_def)
  then show ?case using Cons sorted_insort_by[of le, OF assms] by simp
qed

section \<open>Grouping tags\<close>










section \<open>Ranking stores\<close>

lemma rating_order_total: "rating_order a b \<or> rating_order b a"
  by (auto simp: rating_order_def)

lemma rating_order_trans: "rating_order a b \<Longrightarrow> rating_order b c \<Longrightarrow> rating_order a c"
  by (auto simp: rating_order_def)

lemma getTopStores_take: "getTopStores db = take 10 (sort_by rating_order (qualifying db))"
  by (simp add: getTopStores_def qualifying_def)

lemma sorted_ranking: "sorted_wrt rating_order (sort_by rating_order xs)"
  by (rule sorted_sort_by) (use rating_order_total rating_order_trans in blast)+

lemma qualifying_iff:
  "e \<in> set (qualifying db) \<longleftrightarrow>
     (\<exists>s\<in>set (stores db). 1 < length (filter (\<lambda>r. store r = oid s) (reviews db))
        \<and> e = project_summary (s, filter (\<lambda>r. store r = oid s) (reviews db)))"
  by (auto simp: qualifying_def lookup_reviews_def has_second_review_def)

lemma in_report_qualifying: "e \<in> set (getTopStores db) \<Longrightarrow> e \<in> set (qualifying db)"
  using in_set_takeD[of e 10 "sort_by rating_order (qualifying db)"]
  by (simp add: getTopStores_take set_sort_by)

lemma take_sorted_cut:
  assumes "sorted_wrt le xs" and "x \<in> set xs" and "x \<notin> set (take n xs)"
  shows "length (take n xs) = n \<and> (\<forall>y\<in>set (take n xs). le y x)"
proof -
  have split: "xs = take n xs @ drop n xs" by simp
  have "x \<in> set (drop n xs)"
    using assms(2,3) by (metis Un_iff split set_append)
  moreover have "sorted_wrt le (take n xs @ drop n xs)" using assms(1) by simp
  ultimately have "\<forall>y\<in>set (take n xs). le y x"
    unfolding sorted_wrt_append by blast
  moreover have "n < length xs"
    using \<open>x \<in> set (drop n xs)\<close> by (cases "n < length xs") auto
  ultimately show ?thesis by simp
qed

section \<open>The save path\<close>

lemma length_find_stores: "length (find_stores c db) = length (filter c (stores db))"
  by (simp add: find_stores_def)

lemma find_stores_empty: "find_stores c db = [] \<longleftrightarrow> filter c (stores db) = []"
  by (simp add: find_stores_def)

lemma pre_save_unmodified: "\<not> isModified P_name d \<Longrightarrow> pre_save slugs db d = Inr d"
  by (simp add: pre_save_def)

lemma pre_save_modified:
  "isModified P_name d \<Longrightarrow> name (doc d) = Some n \<Longrightarrow>
   pre_save slugs db d =
     Inr (set_slug (assigned_slug (slugs n) (length (filter (slug_matches (slugs n)) (stores db)))) d)"
  by (simp add: pre_save_def length_find_stores find_stores_empty assigned_slug_def Let_def)


lemma fold_set_path_slug:
  "P_slug \<notin> set ps \<Longrightarrow> slug (fold (set_path src) ps s) = slug s"
proof (induction ps arbitrary: s)
  case Nil
  then show ?case by simp
next
  case (Cons p ps)
  then have "slug (set_path src p s) = slug s" by (cases p) simp_all
  then show ?case using Cons by simp
qed

lemma write_doc_keeps_slugs:
  assumes "write_doc d ss = Inr ss'" and "\<not> isNew d" and "\<not> isModified P_slug d"
  shows "map slug ss' = map slug ss"
proof -
  have "ss' = map (\<lambda>s. if oid s = oid (doc d) then update_doc d s else s) ss"
    using assms(1,2) by (simp add: write_doc_def split: if_splits)
  moreover have "slug (update_doc d s) = slug s" for s
    using assms(3) by (simp add: update_doc_def isModified_def fold_set_path_slug)
  ultimately show ?thesis by (simp add: comp_def)
qed

lemma trim_blank: "list_all is_space n \<Longrightarrow> trim n = []"
proof -
  assume "list_all is_space n"
  then have "\<forall>x\<in>set n. is_space x" by (simp add: list_all_iff)
  then have "dropWhile is_space n = []" by (simp only: dropWhile_eq_Nil_conv)
  then show ?thesis unfolding trim_def by (simp only: rev.simps dropWhile.simps)
qed


lemma save_cases:
  obtains (invalid) e es where "validate (doc d) = e # es"
      "save slugs d db = (Inl (ValidationError (e # es)), db)"
  | (thrown) err where "validate (doc d) = []" "pre_save slugs db d = Inl err"
      "save slugs d db = (Inl err, db)"
  | (refused) d0 err where "validate (doc d) = []" "pre_save slugs db d = Inr d0"
      "write_doc d0 (stores db) = Inl err" "save slugs d db = (Inl err, db)"
  | (written) d0 ss where "validate (doc d) = []" "pre_save slugs db d = Inr d0"
      "write_doc d0 (stores db) = Inr ss"
      "save slugs d db = (Inr (d0\<lparr>isNew := False, modifiedPaths := []\<rparr>), db\<lparr>stores := ss\<rparr>)"
proof (cases "validate (doc d)")
  case (Cons e es)
  then show ?thesis using invalid by (simp add: save_def)
next
  case Nil
  show ?thesis
  proof (cases "pre_save slugs db d")
    case (Inl err)
    then show ?thesis using Nil thrown by (simp add: save_def)
  next
    case (Inr d0)
    show ?thesis
    proof (cases "write_doc d0 (stores db)")
      case (Inl err)
      then show ?thesis using Nil Inr refused by (simp add: save_def)
    next
      case (Inr ss)
      then show ?thesis using Nil \<open>pre_save slugs db d = Inr d0\<close> written by (simp add: save_def)
    qed
  qed
qed







section \<open>Evaluation on the example data\<close>

lemmas example_defs =
  example_input_def example_store_def empty_db_def coffee_db_def hyphen_db_def pizza_db_def
  tags_db_def ratings_db_def thirds_db_def slugs_example_def to_lower_def

lemmas save_defs =
  createStore_def save_def new_Store_def new_Location_def given_def validate_def
  validate_coordinates_def required_string_def trim_def is_space_def pre_save_def isModified_def
  find_stores_def populate_reviews_def slug_matches_def set_slug_def write_doc_def update_doc_def
  geo_keys_def show_nat.simps digit_char_def

lemmas rx_defs = rx_test_def slugRegEx_def spec_slugRegEx_def rx_literal_def is_digit_def

lemmas report_defs =
  getTopStores_def lookup_reviews_def has_second_review_def project_summary_def avg_def
  sort_by_def rating_order_def to_double_examples

lemma getTopStores_ratings_db:
  "map (\<lambda>e. (sum_id e, averageRating e)) (getTopStores ratings_db) = [(3, Some (9 / 2)), (1, Some 3)]"
  by (simp add: report_defs ratings_db_def example_store_def)

section \<open>The claims\<close>

text \<open>
  Claim C1. The claim is that a create gets the base slug whenever no stored slug is the
  base or the base with a hyphen and digits, and the base with \<open>-(N + 1)\<close> when \<open>N\<close> are.
  The hook counts with \<open>slugRegEx\<close>, which also accepts the base with a bare hyphen. In
  the catalog whose only slug is \<open>coffee-shop-\<close> nothing matches the pattern of the
  specification, yet three creates named \<open>Coffee Shop\<close>, each on the database the one before
  left, are stored as \<open>coffee-shop-2\<close>, \<open>coffee-shop-3\<close> and \<open>coffee-shop-4\<close>. In the catalog
  whose only slug is \<open>pizza-place\<close> the first create is stored as \<open>coffee-shop\<close>.
\<close>

theorem free_base_slug_not_assigned:
  "map slug (stores hyphen_db) = [Some ''coffee-shop-'']
   \<and> \<not> rx_test (spec_slugRegEx ''coffee-shop'') True ''coffee-shop-''
   \<and> slugs_example ''Coffee Shop'' = ''coffee-shop''
   \<and> map slug (stores (snd (createStore slugs_example (example_input ''Coffee Shop'' [Some 1, Some 2]) 4 0
        (snd (createStore slugs_example (example_input ''Coffee Shop'' [Some 1, Some 2]) 3 0
          (snd (createStore slugs_example (example_input ''Coffee Shop'' [Some 1, Some 2]) 2 0
             hyphen_db)))))))
       = [Some ''coffee-shop-'', Some ''coffee-shop-2'', Some ''coffee-shop-3'', Some ''coffee-shop-4'']
   \<and> map slug (stores (snd (createStore slugs_example
          (example_input ''Coffee Shop'' [Some 1, Some 2]) 2 0 pizza_db)))
       = [Some ''pizza-place'', Some ''coffee-shop'']"
  by (simp add: example_defs save_defs rx_defs)

text \<open>
  Claim C2. When the name of a document is not modified, the hook returns the document as
  it is: a successful save hands back the slug the document had, and when the document is
  a stored one whose slug was not set by hand either, every stored slug is the same after
  the save as before.
\<close>

theorem resave_keeps_slug:
  assumes "\<not> isModified P_name d"
  shows "pre_save slugs db d = Inr d
    \<and> (\<forall>d'. fst (save slugs d db) = Inr d' \<longrightarrow> slug (doc d') = slug (doc d))
    \<and> (\<not> isNew d \<and> \<not> isModified P_slug d \<longrightarrow>
         map slug (stores (snd (save slugs d db))) = map slug (stores db))"
proof (intro conjI allI impI)
  show pre: "pre_save slugs db d = Inr d" using assms by (rule pre_save_unmodified)
  {
    fix d' assume "fst (save slugs d db) = Inr d'"
    then show "slug (doc d') = slug (doc d)"
      using pre by (cases rule: save_cases[of d slugs db]) auto
  }
  assume "\<not> isNew d \<and> \<not> isModified P_slug d"
  then show "map slug (stores (snd (save slugs d db))) = map slug (stores db)"
    using pre by (cases rule: save_cases[of d slugs db]) (auto dest: write_doc_keeps_slugs)
qed

theorem resave_keeps_slug_witness:
  "\<not> isModified P_name ((hydrate (example_store 1 ''coffee-shop'' []))\<lparr>modifiedPaths := [P_photo]\<rparr>)
   \<and> map slug (stores (snd (save slugs_example
         ((hydrate (example_store 1 ''coffee-shop'' []))\<lparr>modifiedPaths := [P_photo]\<rparr>)
         \<lparr>stores = [example_store 1 ''coffee-shop'' []], reviews = []\<rparr>)))
       = [Some ''coffee-shop'']"
  using resave_keeps_slug[of "(hydrate (example_store 1 ''coffee-shop'' []))\<lparr>modifiedPaths := [P_photo]\<rparr>"
      slugs_example "\<lparr>stores = [example_store 1 ''coffee-shop'' []], reviews = []\<rparr>"]
  by (simp add: isModified_def hydrate_def example_store_def save_defs)

text \<open>
  Claim C3. The claim is that a slug made of the base and a bare trailing hyphen is not
  counted. The expression of the hook reads \<open>-[0-9]*\<close>, so it does count it. Saving the
  stored \<open>coffee-shop\<close> with its slug set to \<open>coffee-shop-\<close> leaves that as the only stored
  slug; a create named \<open>Coffee Shop\<close> then finds one match and is stored as
  \<open>coffee-shop-2\<close>.
\<close>

theorem bare_hyphen_counted:
  "slug_matches ''coffee-shop'' (example_store 1 ''coffee-shop-'' [])
   \<and> snd (save slugs_example
        \<lparr>doc = example_store 1 ''coffee-shop-'' [], isNew = False, modifiedPaths = [P_slug]\<rparr>
        coffee_db) = hyphen_db
   \<and> map slug (stores (snd (createStore slugs_example
          (example_input ''Coffee Shop'' [Some 1, Some 2]) 2 0 hyphen_db)))
       = [Some ''coffee-shop-'', Some ''coffee-shop-2'']"
  by (simp add: example_defs save_defs rx_defs)

text \<open>
  Claim C4. Every entry of the report of \<open>getTopStores\<close> belongs to a store with more than
  one review and carries exactly that store's reviews. With distinct store ids, a store
  with no review or one review has no entry. A store with two or more reviews has its
  entry in the report, unless the report is full with ten entries whose averages are all
  at least that store's average.
\<close>

theorem getTopStores_more_than_one_review:
  "(\<forall>e\<in>set (getTopStores db). \<exists>s\<in>set (stores db). sum_id e = oid s
        \<and> sum_reviews e = filter (\<lambda>r. store r = oid s) (reviews db) \<and> 1 < length (sum_reviews e))
   \<and> (distinct (map oid (stores db)) \<longrightarrow>
        (\<forall>s\<in>set (stores db). length (filter (\<lambda>r. store r = oid s) (reviews db)) \<le> 1 \<longrightarrow>
           (\<forall>e\<in>set (getTopStores db). sum_id e \<noteq> oid s)))
   \<and> (\<forall>s\<in>set (stores db). 1 < length (filter (\<lambda>r. store r = oid s) (reviews db)) \<longrightarrow>
        project_summary (s, filter (\<lambda>r. store r = oid s) (reviews db)) \<in> set (getTopStores db)
        \<or> (length (getTopStores db) = 10
            \<and> (\<forall>e\<in>set (getTopStores db).
                  avg (map rating (filter (\<lambda>r. store r = oid s) (reviews db))) \<le> averageRating e)))"
proof (intro conjI ballI impI)
  fix e assume "e \<in> set (getTopStores db)"
  then have "e \<in> set (qualifying db)" by (rule in_report_qualifying)
  then show "\<exists>s\<in>set (stores db). sum_id e = oid s
        \<and> sum_reviews e = filter (\<lambda>r. store r = oid s) (reviews db) \<and> 1 < length (sum_reviews e)"
    by (auto simp: qualifying_iff project_summary_def)
next
  fix s e
  assume d: "distinct (map oid (stores db))" and s: "s \<in> set (stores db)"
    and few: "length (filter (\<lambda>r. store r = oid s) (reviews db)) \<le> 1"
    and e: "e \<in> set (getTopStores db)"
  show "sum_id e \<noteq> oid s"
  proof
    assume same: "sum_id e = oid s"
    from e have "e \<in> set (qualifying db)" by (rule in_report_qualifying)
    then obtain s' where s': "s' \<in> set (stores db)"
        "1 < length (filter (\<lambda>r. store r = oid s') (reviews db))" "sum_id e = oid s'"
      by (auto simp: qualifying_iff project_summary_def)
    have "s' = s" using d s s' same by (simp add: distinct_map inj_on_def)
    then show False using s' few by simp
  qed
next
  fix s
  assume s: "s \<in> set (stores db)"
    and many: "1 < length (filter (\<lambda>r. store r = oid s) (reviews db))"
  let ?e = "project_summary (s, filter (\<lambda>r. store r = oid s) (reviews db))"
  let ?L = "sort_by rating_order (qualifying db)"
  have inL: "?e \<in> set ?L" using s many by (auto simp: set_sort_by qualifying_iff)
  show "?e \<in> set (getTopStores db)
        \<or> (length (getTopStores db) = 10
            \<and> (\<forall>e\<in>set (getTopStores db).
                  avg (map rating (filter (\<lambda>r. store r = oid s) (reviews db))) \<le> averageRating e))"
  proof (cases "?e \<in> set (take 10 ?L)")
    case True
    then show ?thesis by (simp add: getTopStores_take)
  next
    case False
    from take_sorted_cut[OF sorted_ranking inL False]
    have "length (take 10 ?L) = 10 \<and> (\<forall>y\<in>set (take 10 ?L). rating_order y ?e)" .
    then show ?thesis
      by (simp add: getTopStores_take rating_order_def project_summary_def)
  qed
qed

theorem getTopStores_more_than_one_review_witness:
  "distinct (map oid (stores ratings_db))
   \<and> example_store 2 ''s2'' [] \<in> set (stores ratings_db)
   \<and> length (filter (\<lambda>r. store r = oid (example_store 2 ''s2'' [])) (reviews ratings_db)) \<le> 1
   \<and> example_store 3 ''s3'' [] \<in> set (stores ratings_db)
   \<and> 1 < length (filter (\<lambda>r. store r = oid (example_store 3 ''s3'' [])) (reviews ratings_db))
   \<and> map sum_id (getTopStores ratings_db) = [3, 1]"
proof -
  have "map sum_id (getTopStores ratings_db) = map fst (map (\<lambda>e. (sum_id e, averageRating e)) (getTopStores ratings_db))"
    by (simp add: comp_def)
  then have ids: "map sum_id (getTopStores ratings_db) = [3, 1]"
    by (simp only: getTopStores_ratings_db) simp
  show ?thesis
    using getTopStores_more_than_one_review[of ratings_db] ids
    by (simp add: ratings_db_def example_store_def)
qed






text \<open>
  Claim C7, as amended. \<open>getTopStores\<close> has no limit parameter: whatever a caller
  passes, the report has at most ten entries.
\<close>

theorem getTopStores_fixed_limit: "length (getTopStores_call args db) \<le> 10"
  by (simp add: getTopStores_call_def getTopStores_def)

text \<open>
  As stated, C7 lets the caller choose the limit. A caller that asks for one entry gets
  two from a database with two ranked stores.
\<close>

theorem requested_limit_ignored: "\<not> length (getTopStores_call [1] ratings_db) \<le> 1"
proof -
  have "length (getTopStores ratings_db) = length (map (\<lambda>e. (sum_id e, averageRating e)) (getTopStores ratings_db))"
    by simp
  then have "length (getTopStores ratings_db) = 2"
    by (simp only: getTopStores_ratings_db) simp
  then show ?thesis by (simp add: getTopStores_call_def)
qed

text \<open>
  Claim C8. A \<open>find\<close> returns the stored records that pass the condition, unchanged, each
  paired with exactly the reviews whose \<open>store\<close> is its id; a \<open>findOne\<close> returns a stored
  record that passes the condition, paired in the same way, and nothing only when no
  stored record passes. \<open>listStores\<close> and \<open>getStore\<close> are such queries. The reviews are part
  of the result, not of the stored record, and a read returns no database.
\<close>

theorem listStores_getStore_populated:
  "map fst (find_stores cond db) = filter cond (stores db)
   \<and> (\<forall>v\<in>set (find_stores cond db). snd v = filter (\<lambda>r. store r = oid (fst v)) (reviews db))
   \<and> (\<forall>v. findOne cond db = Some v \<longrightarrow>
        fst v \<in> set (stores db) \<and> cond (fst v)
        \<and> snd v = filter (\<lambda>r. store r = oid (fst v)) (reviews db))
   \<and> (findOne cond db = None \<longleftrightarrow> (\<forall>s\<in>set (stores db). \<not> cond s))
   \<and> listStores cond db = find_stores cond db
   \<and> getStore sl db = findOne (\<lambda>s. slug s = Some sl) db"
proof (intro conjI allI impI ballI)
  show "map fst (find_stores cond db) = filter cond (stores db)"
    by (simp add: find_stores_def populate_reviews_def comp_def)
next
  fix v assume "v \<in> set (find_stores cond db)"
  then show "snd v = filter (\<lambda>r. store r = oid (fst v)) (reviews db)"
    by (auto simp: find_stores_def populate_reviews_def)
next
  fix v assume v: "findOne cond db = Some v"
  then obtain s rest where f: "filter cond (stores db) = s # rest"
      and veq: "v = populate_reviews (reviews db) s"
    by (auto simp: findOne_def split: list.splits)
  have "s \<in> set (filter cond (stores db))" using f by simp
  then show "fst v \<in> set (stores db)" "cond (fst v)"
    "snd v = filter (\<lambda>r. store r = oid (fst v)) (reviews db)"
    using veq by (simp_all add: populate_reviews_def)
next
  show "findOne cond db = None \<longleftrightarrow> (\<forall>s\<in>set (stores db). \<not> cond s)"
  proof (cases "filter cond (stores db)")
    case Nil
    then have "\<forall>s\<in>set (stores db). \<not> cond s"
      by (simp only: filter_empty_conv)
    then show ?thesis using Nil by (simp add: findOne_def)
  next
    case (Cons s rest)
    then have "s \<in> set (filter cond (stores db))" by simp
    then have "\<exists>s\<in>set (stores db). cond s" by auto
    then show ?thesis using Cons by (auto simp: findOne_def)
  qed
next
  show "listStores cond db = find_stores cond db" by (simp add: listStores_def)
next
  show "getStore sl db = findOne (\<lambda>s. slug s = Some sl) db" by (simp add: getStore_def)
qed

theorem listStores_getStore_populated_witness:
  "listStores (\<lambda>s. oid s \<noteq> 1) ratings_db
     = [(example_store 2 ''s2'' [], [\<lparr>rid = 3, store = 2, rating = 5\<rparr>]),
        (example_store 3 ''s3'' [], [\<lparr>rid = 4, store = 3, rating = 4\<rparr>, \<lparr>rid = 5, store = 3, rating = 5\<rparr>])]
   \<and> (example_store 2 ''s2'' [], [\<lparr>rid = 3, store = 2, rating = 5\<rparr>])
       \<in> set (find_stores (\<lambda>s. oid s \<noteq> 1) ratings_db)
   \<and> findOne (\<lambda>s. oid s \<noteq> 1) ratings_db
     = Some (example_store 2 ''s2'' [], [\<lparr>rid = 3, store = 2, rating = 5\<rparr>])
   \<and> getStore ''s3'' ratings_db
     = Some (example_store 3 ''s3'' [], [\<lparr>rid = 4, store = 3, rating = 4\<rparr>, \<lparr>rid = 5, store = 3, rating = 5\<rparr>])
   \<and> getStore ''s9'' ratings_db = None"
  using listStores_getStore_populated[of "\<lambda>s. oid s \<noteq> 1" ratings_db "''s3''"]
  by (simp add: listStores_def getStore_def find_stores_def findOne_def populate_reviews_def
      ratings_db_def example_store_def)

text \<open>
  Claim C9. A create whose name is empty or white space only fails with a
  \<open>ValidationError\<close> that names the \<open>name\<close> path, and leaves the database as it was.
\<close>

theorem blank_name_rejected:
  assumes "in_name inp = Some n" and "list_all is_space n"
  shows "\<exists>errs. createStore slugs inp i now db = (Inl (ValidationError errs), db)
     \<and> (''name'', ''Please enter a store name!'') \<in> set errs"
proof -
  have "name (doc (new_Store inp i now)) = Some []"
    using assms by (simp add: new_Store_def trim_blank)
  then obtain es where "validate (doc (new_Store inp i now)) = (''name'', ''Please enter a store name!'') # es"
    by (simp add: validate_def required_string_def)
  then show ?thesis by (simp add: createStore_def save_def)
qed

theorem blank_name_rejected_witness:
  "in_name (example_input ''  '' [Some 1, Some 2]) = Some ''  '' \<and> list_all is_space ''  ''
   \<and> createStore slugs_example (example_input ''  '' [Some 1, Some 2]) 1 0 empty_db
       = (Inl (ValidationError [(''name'', ''Please enter a store name!'')]), empty_db)"
  using blank_name_rejected[of "example_input ''  '' [Some 1, Some 2]" "''  ''" slugs_example 1 0 empty_db]
  by (simp add: example_defs save_defs)




end
